theory Spec2Isabelle
  imports Main
begin

section \<open>The record store of \<^verbatim>\<open>src/helpers/storage-records.js\<close>\<close>

text \<open>
  The module keeps, for every namespace (``area''), a catalog of record sets in the
  extension's key-value storage and appends looked-up words to the latest set. The model
  below follows the source function by function. Promises are modelled by their settled
  value: a chain of \<^verbatim>\<open>.then\<close> is a sequence of \<open>let\<close>s, a rejected promise is an
  \<open>Inl\<close> fault. The storage is an explicit state that every function that calls the
  storage takes and returns.
\<close>

subsection \<open>Numbers\<close>

text \<open>
  Word counts are JavaScript numbers. They hold small integers, or \<^verbatim>\<open>NaN\<close> once an
  arithmetic operation has met \<^verbatim>\<open>undefined\<close>.
\<close>

datatype jsnum = Num int | NaN

fun num_add :: "jsnum \<Rightarrow> jsnum \<Rightarrow> jsnum" where
  "num_add (Num a) (Num b) = Num (a + b)"
| "num_add _ _ = NaN"

fun num_sub :: "jsnum \<Rightarrow> jsnum \<Rightarrow> jsnum" where
  "num_sub (Num a) (Num b) = Num (a - b)"
| "num_sub _ _ = NaN"

text \<open>Comparisons with \<^verbatim>\<open>NaN\<close> are false.\<close>

fun num_ge :: "jsnum \<Rightarrow> jsnum \<Rightarrow> bool" where
  "num_ge (Num a) (Num b) = (b \<le> a)"
| "num_ge _ _ = False"

fun num_lt :: "jsnum \<Rightarrow> jsnum \<Rightarrow> bool" where
  "num_lt (Num a) (Num b) = (a < b)"
| "num_lt _ _ = False"

text \<open>The sum of a sequence of numbers, written the mathematical way.\<close>

primrec num_sum :: "jsnum list \<Rightarrow> jsnum" where
  "num_sum [] = Num 0"
| "num_sum (x # xs) = num_add x (num_sum xs)"

subsection \<open>Decimal rendering and the date key\<close>

text \<open>
  \<^verbatim>\<open>Date.now().toString()\<close> and the string concatenation of a number in \<^verbatim>\<open>getToday\<close>
  render a non-negative integer in decimal.
\<close>

definition digit :: "nat \<Rightarrow> char" where
  "digit d = ''0123456789'' ! (d mod 10)"

fun toString :: "nat \<Rightarrow> string" where
  "toString n = (if n < 10 then [digit n] else toString (n div 10) @ [digit (n mod 10)])"

declare toString.simps [simp del]

text \<open>The three readings of \<^verbatim>\<open>new Date()\<close> that \<^verbatim>\<open>getToday\<close> uses.\<close>

record DateObj =
  getMonth :: nat
  getDate :: nat
  getFullYear :: nat

definition getToday :: "DateObj \<Rightarrow> string" where
  "getToday d =
     (let month = getMonth d + 1;
          date = getDate d;
          year = getFullYear d
      in (if month < 10 then ''0'' else '''') @ toString month @
         (if date < 10 then ''0'' else '''') @ toString date @ toString year)"

subsection \<open>Data model\<close>

text \<open>
  The three JSDoc typedefs. Field names carry the initial of their type, since the
  source uses \<^verbatim>\<open>data\<close> and \<^verbatim>\<open>wordCount\<close> in more than one of them. A catalog built by
  \<^verbatim>\<open>getLatestSet\<close> has no \<^verbatim>\<open>timestamp\<close> property until \<^verbatim>\<open>appendAndSave\<close> sets one.
\<close>

type_synonym Word = string

record Record =
  r_date :: string
  r_data :: "Word list"

record RecordSet =
  s_id :: string
  s_data :: "Record list"
  s_wordCount :: jsnum

record RecordCat =
  c_data :: "string list"
  c_wordCount :: jsnum
  c_timestamp :: "nat option"

subsection \<open>The storage collaborator\<close>

text \<open>
  One key space holds catalogs (under \<^verbatim>\<open>area + 'Cat'\<close>) and record sets (under their
  ids). The state is the content of the storage together with the log of the calls
  issued to it, oldest first.
\<close>

datatype stored = Cat RecordCat | RSet RecordSet

type_synonym storage = "string \<Rightarrow> stored option"

datatype keyarg = Keys "string list" | Undefined

datatype call =
    Get_call "string list"
  | Set_call "(string \<times> stored) list"
  | Remove_call keyarg

record state =
  store :: storage
  calls :: "call list"

datatype fault = TypeError | StorageFailure

text \<open>
  Modelled from the spec: \<^verbatim>\<open>storage.local\<close> of \<^verbatim>\<open>src/helpers/chrome-api\<close>, which is
  imported by the module and is not part of the sources. The spec describes it as
  \<^verbatim>\<open>get(key-or-keys)\<close> giving a mapping from key to stored value in which absent keys
  are simply missing, \<^verbatim>\<open>set(mapping)\<close> writing all given keys with success or failure
  for the call as a whole, and \<^verbatim>\<open>remove(key-or-keys)\<close>. Whether the combined write
  succeeds is a parameter of the model; reads and removals are taken to succeed. A
  removal whose argument is \<^verbatim>\<open>undefined\<close> names no key and removes nothing.
\<close>

definition storage_get :: "string list \<Rightarrow> state \<Rightarrow> storage \<times> state" where
  "storage_get keys st =
     ((\<lambda>k. if k \<in> set keys then store st k else None),
      st\<lparr>calls := calls st @ [Get_call keys]\<rparr>)"

primrec write_all :: "(string \<times> stored) list \<Rightarrow> storage \<Rightarrow> storage" where
  "write_all [] m = m"
| "write_all (kv # kvs) m = write_all kvs (m(fst kv \<mapsto> snd kv))"

definition storage_set :: "bool \<Rightarrow> (string \<times> stored) list \<Rightarrow> state \<Rightarrow> (fault + unit) \<times> state" where
  "storage_set ok kvs st =
     (if ok
      then (Inr (), st\<lparr>store := write_all kvs (store st), calls := calls st @ [Set_call kvs]\<rparr>)
      else (Inl StorageFailure, st\<lparr>calls := calls st @ [Set_call kvs]\<rparr>))"

definition storage_remove :: "keyarg \<Rightarrow> state \<Rightarrow> state" where
  "storage_remove arg st =
     st\<lparr>store := (case arg of
                    Keys ks \<Rightarrow> (\<lambda>k. if k \<in> set ks then None else store st k)
                  | Undefined \<Rightarrow> store st),
        calls := calls st @ [Remove_call arg]\<rparr>"

text \<open>
  Reading a property of a \<^verbatim>\<open>get\<close> result as a catalog or as a record set. Catalog
  keys end in \<^verbatim>\<open>Cat\<close> and set ids are decimal numbers, so a read meets a value of its
  own sort or nothing; a value of the other sort is read as \<^verbatim>\<open>undefined\<close>.
\<close>

definition getCat :: "storage \<Rightarrow> string \<Rightarrow> RecordCat option" where
  "getCat res k = (case res k of Some (Cat c) \<Rightarrow> Some c | _ \<Rightarrow> None)"

definition getSet :: "storage \<Rightarrow> string \<Rightarrow> RecordSet option" where
  "getSet res k = (case res k of Some (RSet s) \<Rightarrow> Some s | _ \<Rightarrow> None)"

subsection \<open>Small JavaScript library functions\<close>

text \<open>\<^verbatim>\<open>Array.prototype.indexOf\<close>: the first index of the element, \<open>None\<close> for \<^verbatim>\<open>-1\<close>.\<close>

primrec indexOf :: "'a list \<Rightarrow> 'a \<Rightarrow> nat option" where
  "indexOf [] x = None"
| "indexOf (y # ys) x =
     (if y = x then Some 0 else (case indexOf ys x of None \<Rightarrow> None | Some i \<Rightarrow> Some (Suc i)))"

text \<open>\<^verbatim>\<open>xs.splice(i, 1)\<close>: the list without its element at index \<open>i\<close>.\<close>

definition splice1 :: "nat \<Rightarrow> 'a list \<Rightarrow> 'a list" where
  "splice1 i xs = take i xs @ drop (Suc i) xs"

text \<open>
  A property that a string does not have is \<^verbatim>\<open>undefined\<close>: as a number it is
  \<^verbatim>\<open>NaN\<close>, as the argument of \<^verbatim>\<open>remove\<close> it is no key.
\<close>

definition string_wordCount :: "string \<Rightarrow> jsnum" where
  "string_wordCount s = NaN"

definition string_id :: "string \<Rightarrow> keyarg" where
  "string_id s = Undefined"

text \<open>
  An array compared with \<^verbatim>\<open><\<close> is converted to a number through its string: the
  empty array gives \<^verbatim>\<open>''\<close> and so 0; an array of record objects gives
  \<^verbatim>\<open>[object Object],...\<close> and so \<^verbatim>\<open>NaN\<close>.
\<close>

definition array_toNumber :: "Record list \<Rightarrow> jsnum" where
  "array_toNumber items = (if items = [] then Num 0 else NaN)"

subsection \<open>The write path\<close>

text \<open>The object literal \<^verbatim>\<open>{id: Date.now().toString(), data: [], wordCount: 0}\<close>.\<close>

definition newSet :: "nat \<Rightarrow> RecordSet" where
  "newSet now = \<lparr>s_id = toString now, s_data = [], s_wordCount = Num 0\<rparr>"

text \<open>
  \<^verbatim>\<open>catalog.data.reduce((sum, id) => allSets[id].wordCount + sum, 0)\<close>; reading
  \<^verbatim>\<open>wordCount\<close> of a missing set would throw.
\<close>

fun reduce_wordCount :: "storage \<Rightarrow> string list \<Rightarrow> jsnum \<Rightarrow> fault + jsnum" where
  "reduce_wordCount allSets [] acc = Inr acc"
| "reduce_wordCount allSets (i # ids) acc =
     (case getSet allSets i of
        None \<Rightarrow> Inl TypeError
      | Some s \<Rightarrow> reduce_wordCount allSets ids (num_add (s_wordCount s) acc))"

definition getLatestSet ::
  "nat \<Rightarrow> RecordCat option \<Rightarrow> state \<Rightarrow> (fault + RecordCat \<times> RecordSet) \<times> state" where
  "getLatestSet now catalog st =
     (let fresh =
            (let latestSet = newSet now;
                 catalog' = \<lparr>c_data = [s_id latestSet], c_wordCount = Num 0,
                             c_timestamp = None\<rparr>
             in (Inr (catalog', latestSet), st))
      in case catalog of
           None \<Rightarrow> fresh
         | Some c \<Rightarrow>
             if length (c_data c) \<le> 0 then fresh
             else
               let id0 = c_data c ! 0;
                   (response, st1) = storage_get [id0] st
               in (case getSet response id0 of
                     Some latestSet \<Rightarrow> (Inr (c, latestSet), st1)
                   | None \<Rightarrow>
                       let latestSet = newSet now;
                           (allSets, st2) = storage_get (c_data c) st1;
                           data' = filter (\<lambda>i. getSet allSets i \<noteq> None) (c_data c)
                       in (case reduce_wordCount allSets data' (Num 0) of
                             Inl f \<Rightarrow> (Inl f, st2)
                           | Inr wc \<Rightarrow>
                               (Inr (c\<lparr>c_data := s_id latestSet # data', c_wordCount := wc\<rparr>,
                                     latestSet), st2))))"

text \<open>
  \<^verbatim>\<open>getTodayItem\<close>. In both branches the returned \<^verbatim>\<open>todayItem\<close> is the very object at
  index 0 of \<^verbatim>\<open>latestSet.data\<close>. The popped \<^verbatim>\<open>oldestSet\<close> is an element of
  \<^verbatim>\<open>catalog.data\<close>, a string.
\<close>

definition getTodayItem ::
  "string \<Rightarrow> nat \<Rightarrow> RecordCat \<times> RecordSet \<Rightarrow> state \<Rightarrow> (RecordCat \<times> RecordSet \<times> Record) \<times> state" where
  "getTodayItem today now cs st =
     (case cs of (catalog, latestSet) \<Rightarrow>
        if length (s_data latestSet) > 0 \<and> r_date (s_data latestSet ! 0) = today then
          ((catalog, latestSet, s_data latestSet ! 0), st)
        else
          let todayItem = \<lparr>r_date = today, r_data = []\<rparr>;
              (catalog1, latestSet1, st1) =
                (if num_ge (s_wordCount latestSet) (Num 500) then
                   let fresh = newSet now;
                       c1 = catalog\<lparr>c_data := s_id fresh # c_data catalog\<rparr>
                   in if length (c_data c1) > 20 then
                        let oldestSet = last (c_data c1);
                            c2 = c1\<lparr>c_data := butlast (c_data c1)\<rparr>;
                            c3 = c2\<lparr>c_wordCount :=
                                      num_sub (c_wordCount c2) (string_wordCount oldestSet)\<rparr>
                        in (c3, fresh, storage_remove (string_id oldestSet) st)
                      else (c1, fresh, st)
                 else (catalog, latestSet, st))
          in ((catalog1, latestSet1\<lparr>s_data := todayItem # s_data latestSet1\<rparr>, todayItem),
              st1))"

text \<open>
  \<^verbatim>\<open>appendAndSave\<close>. The mutations of \<^verbatim>\<open>todayItem.data\<close> are mutations of the object
  at index 0 of \<^verbatim>\<open>latestSet.data\<close>, which is what gets written.
\<close>

definition appendAndSave ::
  "nat \<Rightarrow> bool \<Rightarrow> RecordCat \<times> RecordSet \<times> Record \<Rightarrow> Word \<Rightarrow> string \<Rightarrow> state \<Rightarrow>
   (fault + unit) \<times> state" where
  "appendAndSave now ok res text catName st =
     (case res of (catalog, latestSet, todayItem) \<Rightarrow>
        let index = indexOf (r_data todayItem) text;
            (catalog1, latestSet1, todayItem1) =
              (case index of
                 None \<Rightarrow>
                   (catalog\<lparr>c_wordCount := num_add (c_wordCount catalog) (Num 1)\<rparr>,
                    latestSet\<lparr>s_wordCount := num_add (s_wordCount latestSet) (Num 1)\<rparr>,
                    todayItem)
               | Some i \<Rightarrow>
                   (catalog, latestSet, todayItem\<lparr>r_data := splice1 i (r_data todayItem)\<rparr>));
            todayItem2 = todayItem1\<lparr>r_data := text # r_data todayItem1\<rparr>;
            catalog2 = catalog1\<lparr>c_timestamp := Some now\<rparr>;
            latestSet2 = latestSet1\<lparr>s_data := (s_data latestSet1)[0 := todayItem2]\<rparr>
        in storage_set ok [(catName, Cat catalog2), (s_id latestSet2, RSet latestSet2)] st)"

text \<open>
  What one call of \<^verbatim>\<open>addRecord\<close> reads from its surroundings: the three readings of
  \<^verbatim>\<open>Date.now()\<close> (in \<^verbatim>\<open>getLatestSet\<close>, \<^verbatim>\<open>getTodayItem\<close> and \<^verbatim>\<open>appendAndSave\<close>), the
  date object of \<^verbatim>\<open>getToday\<close>, and whether the storage accepts the write.
\<close>

record env =
  now_latest :: nat
  now_today :: nat
  now_stamp :: nat
  today :: DateObj
  set_ok :: bool

definition catName :: "string \<Rightarrow> string" where
  "catName area = area @ ''Cat''"

definition addRecord :: "env \<Rightarrow> string \<Rightarrow> Word \<Rightarrow> state \<Rightarrow> (fault + unit) \<times> state" where
  "addRecord e area text st =
     (let (res, st1) = storage_get [catName area] st;
          (r1, st2) = getLatestSet (now_latest e) (getCat res (catName area)) st1
      in case r1 of
           Inl f \<Rightarrow> (Inl f, st2)
         | Inr cs \<Rightarrow>
             let (r2, st3) = getTodayItem (getToday (today e)) (now_today e) cs st2
             in appendAndSave (now_stamp e) (set_ok e) r2 text (catName area) st3)"

text \<open>
  The chain of \<^verbatim>\<open>addRecord\<close> up to, and without, \<^verbatim>\<open>appendAndSave\<close>: what the last
  stage receives.
\<close>

definition resolve ::
  "env \<Rightarrow> string \<Rightarrow> state \<Rightarrow> (fault + RecordCat \<times> RecordSet \<times> Record) \<times> state" where
  "resolve e area st =
     (let (res, st1) = storage_get [catName area] st;
          (r1, st2) = getLatestSet (now_latest e) (getCat res (catName area)) st1
      in case r1 of
           Inl f \<Rightarrow> (Inl f, st2)
         | Inr cs \<Rightarrow>
             let (r2, st3) = getTodayItem (getToday (today e)) (now_today e) cs st2
             in (Inr r2, st3))"

subsection \<open>The read and clear paths\<close>

definition clearRecords :: "string \<Rightarrow> state \<Rightarrow> state" where
  "clearRecords area st =
     (let (res, st1) = storage_get [catName area] st
      in case getCat res (catName area) of
           Some catalog \<Rightarrow> storage_remove (Keys (c_data catalog)) st1
         | None \<Rightarrow> st1)"

text \<open>
  The inner loop of \<^verbatim>\<open>getAllWords\<close>, \<^verbatim>\<open>for (let j = 0; j < items; j++)\<close>: the bound is
  the array \<^verbatim>\<open>items\<close> itself. Reading \<^verbatim>\<open>data\<close> of an element past the end would throw.
\<close>

function inner_loop :: "Record list \<Rightarrow> nat \<Rightarrow> Word list \<Rightarrow> fault + Word list" where
  "inner_loop items j result =
     (if num_lt (Num (int j)) (array_toNumber items) then
        (if j < length items
         then inner_loop items (Suc j) (result @ r_data (items ! j))
         else Inl TypeError)
      else Inr result)"
  by pat_completeness auto
termination
  by (relation "measure (\<lambda>(items, j, result).
        case array_toNumber items of Num n \<Rightarrow> nat (n - int j) | NaN \<Rightarrow> 0)")
     (auto split: jsnum.splits)

declare inner_loop.simps [simp del]

text \<open>
  The outer loop, over the ids of the catalog in order; \<^verbatim>\<open>allSets[setIds[i]].data\<close>
  throws when the set is missing from the result.
\<close>

fun outer_loop :: "storage \<Rightarrow> string list \<Rightarrow> Word list \<Rightarrow> fault + Word list" where
  "outer_loop allSets [] result = Inr result"
| "outer_loop allSets (i # ids) result =
     (case getSet allSets i of
        None \<Rightarrow> Inl TypeError
      | Some s \<Rightarrow>
          (case inner_loop (s_data s) 0 result of
             Inl f \<Rightarrow> Inl f
           | Inr result' \<Rightarrow> outer_loop allSets ids result'))"

definition getAllWords :: "string \<Rightarrow> state \<Rightarrow> (fault + Word list) \<times> state" where
  "getAllWords area st =
     (let (res, st1) = storage_get [catName area] st
      in case getCat res (catName area) of
           None \<Rightarrow> (Inr [], st1)
         | Some catalog \<Rightarrow>
             let setIds = c_data catalog;
                 (allSets, st2) = storage_get setIds st1
             in (outer_loop allSets setIds [], st2))"

definition getWordCount :: "string \<Rightarrow> state \<Rightarrow> jsnum \<times> state" where
  "getWordCount area st =
     (let (res, st1) = storage_get [catName area] st
      in (case getCat res (catName area) of
            Some catalog \<Rightarrow> c_wordCount catalog
          | None \<Rightarrow> Num 0, st1))"

subsection \<open>Auxiliary notions for the statements\<close>

text \<open>The payloads of the \<^verbatim>\<open>set\<close> calls in a log, oldest first.\<close>

primrec set_calls :: "call list \<Rightarrow> (string \<times> stored) list list" where
  "set_calls [] = []"
| "set_calls (c # cs) =
     (case c of Set_call kvs \<Rightarrow> kvs # set_calls cs | _ \<Rightarrow> set_calls cs)"

text \<open>
  What the data model says of the set that a catalog lists first, when the storage has
  it: it is stored under its own id, which is not the key of the catalog, and the words
  of its first record are distinct.
\<close>

definition latest_wf :: "string \<Rightarrow> state \<Rightarrow> bool" where
  "latest_wf area st =
     (case getCat (store st) (catName area) of
        None \<Rightarrow> True
      | Some c \<Rightarrow>
          (case c_data c of
             [] \<Rightarrow> True
           | id0 # _ \<Rightarrow>
               (case getSet (store st) id0 of
                  None \<Rightarrow> True
                | Some s \<Rightarrow>
                    s_id s = id0 \<and> id0 \<noteq> catName area \<and>
                    (case s_data s of [] \<Rightarrow> True | r # _ \<Rightarrow> distinct (r_data r)))))"

text \<open>
  The aggregate-count invariant of the data model: the word count of the catalog is the
  sum of the word counts of the sets it lists, as far as the storage has them.
\<close>

definition count_inv :: "string \<Rightarrow> state \<Rightarrow> bool" where
  "count_inv area st =
     (case getCat (store st) (catName area) of
        None \<Rightarrow> True
      | Some c \<Rightarrow>
          c_wordCount c =
            num_sum (map s_wordCount (List.map_filter (getSet (store st)) (c_data c))))"

text \<open>
  What the data model says of the ids that a catalog lists: no id twice, none of them
  the key of the catalog, and none of them an id that the call at hand is about to
  make from the current time.
\<close>

definition ids_wf :: "env \<Rightarrow> string \<Rightarrow> state \<Rightarrow> bool" where
  "ids_wf e area st =
     (case getCat (store st) (catName area) of
        None \<Rightarrow> True
      | Some c \<Rightarrow>
          distinct (c_data c) \<and> catName area \<notin> set (c_data c) \<and>
          toString (now_latest e) \<notin> set (c_data c) \<and>
          toString (now_today e) \<notin> set (c_data c))"

subsection \<open>Concrete inputs\<close>

text \<open>3 November 2026, whose date key is \<^verbatim>\<open>11032026\<close>, and two calls on that day.\<close>

definition nov3 :: DateObj where
  "nov3 = \<lparr>getMonth = 10, getDate = 3, getFullYear = 2026\<rparr>"

definition env0 :: env where
  "env0 = \<lparr>now_latest = 170, now_today = 171, now_stamp = 172, today = nov3, set_ok = True\<rparr>"


definition empty_state :: state where
  "empty_state = \<lparr>store = Map.empty, calls = []\<rparr>"

text \<open>A catalog of three sets of which the first is missing from the storage.\<close>

definition desync_cat :: RecordCat where
  "desync_cat = \<lparr>c_data = [''3'', ''2'', ''1''], c_wordCount = Num 99, c_timestamp = Some 100\<rparr>"

definition desync_state :: state where
  "desync_state =
     \<lparr>store = [''aCat'' \<mapsto> Cat desync_cat,
               ''2'' \<mapsto> RSet \<lparr>s_id = ''2'', s_data = [], s_wordCount = Num 7\<rparr>,
               ''1'' \<mapsto> RSet \<lparr>s_id = ''1'', s_data = [], s_wordCount = Num 5\<rparr>],
      calls = []\<rparr>"

text \<open>
  A latest set that has reached 500 words, with a first record of the given date, in a
  catalog of one set.
\<close>

definition full_set :: "string \<Rightarrow> RecordSet" where
  "full_set d = \<lparr>s_id = ''5'', s_data = [\<lparr>r_date = d, r_data = [''old'']\<rparr>],
                  s_wordCount = Num 500\<rparr>"

definition full_state :: "string \<Rightarrow> state" where
  "full_state d =
     \<lparr>store = [''aCat'' \<mapsto> Cat \<lparr>c_data = [''5''], c_wordCount = Num 500,
                                    c_timestamp = Some 100\<rparr>,
               ''5'' \<mapsto> RSet (full_set d)],
      calls = []\<rparr>"

text \<open>
  A catalog at its capacity of twenty sets, every one stored under its id with 500
  words and a record of the day before.
\<close>

definition ids20 :: "string list" where
  "ids20 = [''20'', ''19'', ''18'', ''17'', ''16'', ''15'', ''14'', ''13'', ''12'', ''11'',
            ''10'', ''9'', ''8'', ''7'', ''6'', ''5'', ''4'', ''3'', ''2'', ''1'']"

definition cat20 :: RecordCat where
  "cat20 = \<lparr>c_data = ids20, c_wordCount = Num 10000, c_timestamp = Some 100\<rparr>"

definition set20 :: "string \<Rightarrow> RecordSet" where
  "set20 i = \<lparr>s_id = i, s_data = [\<lparr>r_date = ''11022026'', r_data = [''old'']\<rparr>],
               s_wordCount = Num 500\<rparr>"

definition capacity_state :: state where
  "capacity_state =
     \<lparr>store = (\<lambda>k. if k = ''aCat'' then Some (Cat cat20)
                     else if k \<in> set ids20 then Some (RSet (set20 k)) else None),
      calls = []\<rparr>"

section \<open>Facts about the model\<close>

subsection \<open>Numbers and decimal strings\<close>

lemma num_add_commute: "num_add a b = num_add b a"
  by (cases a; cases b) simp_all

lemma num_add_assoc: "num_add (num_add a b) c = num_add a (num_add b c)"
  by (cases a; cases b; cases c) simp_all

lemma num_add_left_commute: "num_add a (num_add b c) = num_add b (num_add a c)"
  by (cases a; cases b; cases c) simp_all

lemma num_add_0 [simp]: "num_add a (Num 0) = a" "num_add (Num 0) a = a"
  by (cases a; simp)+


lemma num_sum_Num: "num_sum (map Num ns) = Num (sum_list ns)"
  by (induction ns) simp_all

lemma digit_in: "digit d \<in> set ''0123456789''"
proof -
  have "d mod 10 < length ''0123456789''" by simp
  then show ?thesis unfolding digit_def by (rule nth_mem)
qed

lemma toString_last: "toString n \<noteq> [] \<and> last (toString n) \<in> set ''0123456789''"
proof (cases "n < 10")
  case True
  then have "toString n = [digit n]" by (subst toString.simps) simp
  then show ?thesis using digit_in [of n] by simp
next
  case False
  then have "toString n = toString (n div 10) @ [digit (n mod 10)]"
    by (subst toString.simps) simp
  then show ?thesis using digit_in [of "n mod 10"] by simp
qed

lemma toString_neq_catName: "toString n \<noteq> catName area"
proof
  assume "toString n = catName area"
  then have "last (toString n) = CHR ''t''" by (simp add: catName_def)
  with toString_last [of n] show False by auto
qed

subsection \<open>Lists and the storage\<close>

lemma indexOf_None: "indexOf xs x = None \<longleftrightarrow> x \<notin> set xs"
  by (induction xs) (auto split: option.splits)

lemma indexOf_splice1: "indexOf xs x = Some i \<Longrightarrow> splice1 i xs = remove1 x xs"
proof (induction xs arbitrary: i)
  case Nil
  then show ?case by simp
next
  case (Cons y ys)
  show ?case
  proof (cases "y = x")
    case True
    with Cons.prems show ?thesis by (simp add: splice1_def)
  next
    case False
    with Cons.prems obtain j where j: "indexOf ys x = Some j" "i = Suc j"
      by (auto split: option.splits)
    with Cons.IH [of j] False show ?thesis by (simp add: splice1_def)
  qed
qed

lemma map_filter_cong_set:
  "(\<And>i. i \<in> set ids \<Longrightarrow> f i = g i) \<Longrightarrow> List.map_filter f ids = List.map_filter g ids"
  by (induction ids) (auto simp: List.map_filter_simps split: option.splits)

lemma map_filter_filter:
  "List.map_filter f (filter (\<lambda>i. f i \<noteq> None) ids) = List.map_filter f ids"
  by (induction ids) (auto simp: List.map_filter_simps split: option.splits)

lemma map_filter_filter_ex:
  "List.map_filter f (filter (\<lambda>i. \<exists>y. f i = Some y) ids) = List.map_filter f ids"
  by (induction ids) (auto simp: List.map_filter_simps split: option.splits)

lemma map_filter_getSet_upd:
  "k \<notin> set ids \<Longrightarrow> List.map_filter (getSet (m(k \<mapsto> v))) ids = List.map_filter (getSet m) ids"
  by (rule map_filter_cong_set) (auto simp: getSet_def)

lemma storage_get_fst [simp]:
  "fst (storage_get ks st) k = (if k \<in> set ks then store st k else None)"
  by (simp add: storage_get_def)

lemma storage_get_snd [simp]:
  "snd (storage_get ks st) = st\<lparr>calls := calls st @ [Get_call ks]\<rparr>"
  by (simp add: storage_get_def)

lemma getSet_storage_get [simp]:
  "getSet (fst (storage_get ks st)) k = (if k \<in> set ks then getSet (store st) k else None)"
  by (simp add: getSet_def)

lemma getCat_storage_get [simp]:
  "getCat (fst (storage_get ks st)) k = (if k \<in> set ks then getCat (store st) k else None)"
  by (simp add: getCat_def)

lemma set_calls_append [simp]: "set_calls (xs @ ys) = set_calls xs @ set_calls ys"
  by (induction xs) (auto split: call.splits)

subsection \<open>The stages of the write path, case by case\<close>

lemma reduce_wordCount_resolved:
  "\<forall>i\<in>set ids. getSet m i \<noteq> None \<Longrightarrow>
   reduce_wordCount m ids acc =
     Inr (num_add (num_sum (map s_wordCount (List.map_filter (getSet m) ids))) acc)"
proof (induction ids arbitrary: acc)
  case Nil
  then show ?case by (simp add: List.map_filter_simps)
next
  case (Cons i ids)
  then obtain s where s: "getSet m i = Some s" by auto
  from Cons have "reduce_wordCount m ids (num_add (s_wordCount s) acc) =
      Inr (num_add (num_sum (map s_wordCount (List.map_filter (getSet m) ids)))
             (num_add (s_wordCount s) acc))"
    by simp
  then show ?case
    using s by (simp add: List.map_filter_simps num_add_assoc num_add_commute
        num_add_left_commute)
qed

lemma getLatestSet_fresh:
  "catalog = None \<or> (\<exists>c. catalog = Some c \<and> c_data c = []) \<Longrightarrow>
   getLatestSet now catalog st =
     (Inr (\<lparr>c_data = [toString now], c_wordCount = Num 0, c_timestamp = None\<rparr>, newSet now), st)"
  by (auto simp: getLatestSet_def Let_def newSet_def)

lemma getLatestSet_present:
  "c_data c = id0 # rest \<Longrightarrow> getSet (store st) id0 = Some s \<Longrightarrow>
   getLatestSet now (Some c) st = (Inr (c, s), st\<lparr>calls := calls st @ [Get_call [id0]]\<rparr>)"
  by (simp add: getLatestSet_def Let_def split_beta)

lemma getLatestSet_heal:
  assumes "c_data c = id0 # rest" and "getSet (store st) id0 = None"
  shows "getLatestSet now (Some c) st =
     (Inr (c\<lparr>c_data := toString now # filter (\<lambda>i. getSet (store st) i \<noteq> None) (c_data c),
             c_wordCount := num_sum (map s_wordCount (List.map_filter (getSet (store st)) (c_data c)))\<rparr>,
           newSet now),
      st\<lparr>calls := calls st @ [Get_call [id0], Get_call (c_data c)]\<rparr>)"
proof -
  let ?st1 = "snd (storage_get [id0] st)"
  let ?all = "fst (storage_get (c_data c) ?st1)"
  let ?ids = "filter (\<lambda>i. getSet ?all i \<noteq> None) (c_data c)"
  have ids: "?ids = filter (\<lambda>i. getSet (store st) i \<noteq> None) (c_data c)"
    by (rule filter_cong) simp_all
  have "reduce_wordCount ?all ?ids (Num 0) =
      Inr (num_add (num_sum (map s_wordCount (List.map_filter (getSet ?all) ?ids))) (Num 0))"
    by (rule reduce_wordCount_resolved) simp
  moreover have "List.map_filter (getSet ?all) ?ids = List.map_filter (getSet ?all) (c_data c)"
    by (rule map_filter_filter)
  moreover have "List.map_filter (getSet ?all) (c_data c) = List.map_filter (getSet (store st)) (c_data c)"
    by (rule map_filter_cong_set) simp
  ultimately have red: "reduce_wordCount ?all ?ids (Num 0) =
      Inr (num_sum (map s_wordCount (List.map_filter (getSet (store st)) (c_data c))))"
    by simp
  show ?thesis
    using assms red ids
    by (simp add: getLatestSet_def Let_def split_beta newSet_def)
qed

lemma getTodayItem_existing:
  "0 < length (s_data s) \<and> r_date (s_data s ! 0) = d \<Longrightarrow>
   getTodayItem d now (c, s) st = ((c, s, s_data s ! 0), st)"
  by (simp add: getTodayItem_def)

lemma getTodayItem_new_date:
  "\<not> (0 < length (s_data s) \<and> r_date (s_data s ! 0) = d) \<Longrightarrow>
   \<not> num_ge (s_wordCount s) (Num 500) \<Longrightarrow>
   getTodayItem d now (c, s) st =
     ((c, s\<lparr>s_data := \<lparr>r_date = d, r_data = []\<rparr> # s_data s\<rparr>, \<lparr>r_date = d, r_data = []\<rparr>), st)"
  by (auto simp: getTodayItem_def Let_def)

lemma getTodayItem_rollover:
  "\<not> (0 < length (s_data s) \<and> r_date (s_data s ! 0) = d) \<Longrightarrow>
   num_ge (s_wordCount s) (Num 500) \<Longrightarrow> length (c_data c) < 20 \<Longrightarrow>
   getTodayItem d now (c, s) st =
     ((c\<lparr>c_data := toString now # c_data c\<rparr>,
       \<lparr>s_id = toString now, s_data = [\<lparr>r_date = d, r_data = []\<rparr>], s_wordCount = Num 0\<rparr>,
       \<lparr>r_date = d, r_data = []\<rparr>), st)"
  by (auto simp: getTodayItem_def Let_def newSet_def)

lemma getTodayItem_evict:
  "\<not> (0 < length (s_data s) \<and> r_date (s_data s ! 0) = d) \<Longrightarrow>
   num_ge (s_wordCount s) (Num 500) \<Longrightarrow> 20 \<le> length (c_data c) \<Longrightarrow>
   getTodayItem d now (c, s) st =
     ((c\<lparr>c_data := toString now # butlast (c_data c), c_wordCount := NaN\<rparr>,
       \<lparr>s_id = toString now, s_data = [\<lparr>r_date = d, r_data = []\<rparr>], s_wordCount = Num 0\<rparr>,
       \<lparr>r_date = d, r_data = []\<rparr>),
      st\<lparr>calls := calls st @ [Remove_call Undefined]\<rparr>)"
  by (cases "c_wordCount c")
     (auto simp: getTodayItem_def Let_def newSet_def string_wordCount_def string_id_def
        storage_remove_def)

lemma appendAndSave_eq:
  "appendAndSave now ok (c, s, t) w k st =
     storage_set ok
       [(k, Cat (c\<lparr>c_wordCount := (if w \<in> set (r_data t) then c_wordCount c
                                      else num_add (c_wordCount c) (Num 1)),
                   c_timestamp := Some now\<rparr>)),
        (s_id s, RSet (s\<lparr>s_wordCount := (if w \<in> set (r_data t) then s_wordCount s
                                        else num_add (s_wordCount s) (Num 1)),
                        s_data := (s_data s)[0 := t\<lparr>r_data := w # remove1 w (r_data t)\<rparr>]\<rparr>))] st"
proof (cases "indexOf (r_data t) w")
  case None
  then have "w \<notin> set (r_data t)" by (simp add: indexOf_None)
  with None show ?thesis by (simp add: appendAndSave_def Let_def remove1_idem)
next
  case (Some i)
  then have "w \<in> set (r_data t)" using indexOf_None [of "r_data t" w] by auto
  with Some show ?thesis by (simp add: appendAndSave_def Let_def indexOf_splice1)
qed

lemma addRecord_resolve:
  "addRecord e area w st =
     (case fst (resolve e area st) of
        Inl f \<Rightarrow> (Inl f, snd (resolve e area st))
      | Inr r \<Rightarrow> appendAndSave (now_stamp e) (set_ok e) r w (catName area) (snd (resolve e area st)))"
  by (simp add: addRecord_def resolve_def Let_def split_beta split: sum.splits)

lemma resolve_cases:
  fixes e area st
  defines "K \<equiv> catName area" and "d \<equiv> getToday (today e)"
  defines "t \<equiv> \<lparr>r_date = d, r_data = []\<rparr>"
  obtains
    (fresh) "getCat (store st) K = None \<or> (\<exists>c. getCat (store st) K = Some c \<and> c_data c = [])"
      "resolve e area st =
         (Inr (\<lparr>c_data = [toString (now_latest e)], c_wordCount = Num 0, c_timestamp = None\<rparr>,
               \<lparr>s_id = toString (now_latest e), s_data = [t], s_wordCount = Num 0\<rparr>, t),
          st\<lparr>calls := calls st @ [Get_call [K]]\<rparr>)"
  | (heal) c id0 rest where "getCat (store st) K = Some c" "c_data c = id0 # rest"
      "getSet (store st) id0 = None"
      "resolve e area st =
         (Inr (c\<lparr>c_data := toString (now_latest e) #
                            filter (\<lambda>i. getSet (store st) i \<noteq> None) (c_data c),
                 c_wordCount := num_sum (map s_wordCount
                                  (List.map_filter (getSet (store st)) (c_data c)))\<rparr>,
               \<lparr>s_id = toString (now_latest e), s_data = [t], s_wordCount = Num 0\<rparr>, t),
          st\<lparr>calls := calls st @ [Get_call [K], Get_call [id0], Get_call (c_data c)]\<rparr>)"
  | (existing) c id0 rest s where "getCat (store st) K = Some c" "c_data c = id0 # rest"
      "getSet (store st) id0 = Some s"
      "0 < length (s_data s) \<and> r_date (s_data s ! 0) = d"
      "resolve e area st =
         (Inr (c, s, s_data s ! 0), st\<lparr>calls := calls st @ [Get_call [K], Get_call [id0]]\<rparr>)"
  | (new_date) c id0 rest s where "getCat (store st) K = Some c" "c_data c = id0 # rest"
      "getSet (store st) id0 = Some s"
      "\<not> (0 < length (s_data s) \<and> r_date (s_data s ! 0) = d)"
      "\<not> num_ge (s_wordCount s) (Num 500)"
      "resolve e area st =
         (Inr (c, s\<lparr>s_data := t # s_data s\<rparr>, t),
          st\<lparr>calls := calls st @ [Get_call [K], Get_call [id0]]\<rparr>)"
  | (rollover) c id0 rest s where "getCat (store st) K = Some c" "c_data c = id0 # rest"
      "getSet (store st) id0 = Some s"
      "\<not> (0 < length (s_data s) \<and> r_date (s_data s ! 0) = d)"
      "num_ge (s_wordCount s) (Num 500)" "length (c_data c) < 20"
      "resolve e area st =
         (Inr (c\<lparr>c_data := toString (now_today e) # c_data c\<rparr>,
               \<lparr>s_id = toString (now_today e), s_data = [t], s_wordCount = Num 0\<rparr>, t),
          st\<lparr>calls := calls st @ [Get_call [K], Get_call [id0]]\<rparr>)"
  | (evict) c id0 rest s where "getCat (store st) K = Some c" "c_data c = id0 # rest"
      "getSet (store st) id0 = Some s"
      "\<not> (0 < length (s_data s) \<and> r_date (s_data s ! 0) = d)"
      "num_ge (s_wordCount s) (Num 500)" "20 \<le> length (c_data c)"
      "resolve e area st =
         (Inr (c\<lparr>c_data := toString (now_today e) # butlast (c_data c), c_wordCount := NaN\<rparr>,
               \<lparr>s_id = toString (now_today e), s_data = [t], s_wordCount = Num 0\<rparr>, t),
          st\<lparr>calls := calls st @ [Get_call [K], Get_call [id0], Remove_call Undefined]\<rparr>)"
proof -
  let ?st1 = "st\<lparr>calls := calls st @ [Get_call [K]]\<rparr>"
  have unfold: "resolve e area st =
      (Inr (fst (getTodayItem d (now_today e) cs st2)), snd (getTodayItem d (now_today e) cs st2))"
    if "getLatestSet (now_latest e) (getCat (store st) K) ?st1 = (Inr cs, st2)" for cs st2
    using that by (simp add: resolve_def Let_def split_beta K_def d_def)
  have empty_new: "getTodayItem d n (c', newSet m) st' =
      ((c', \<lparr>s_id = toString m, s_data = [t], s_wordCount = Num 0\<rparr>, t), st')" for n m c' st'
    by (simp add: getTodayItem_def Let_def newSet_def t_def)
  consider (a) "getCat (store st) K = None \<or> (\<exists>c. getCat (store st) K = Some c \<and> c_data c = [])"
    | (b) c id0 rest where "getCat (store st) K = Some c" "c_data c = id0 # rest"
        "getSet (store st) id0 = None"
    | (c) c id0 rest s where "getCat (store st) K = Some c" "c_data c = id0 # rest"
        "getSet (store st) id0 = Some s"
    by (cases "getCat (store st) K"; cases "c_data (the (getCat (store st) K))";
        cases "getSet (store st) (hd (c_data (the (getCat (store st) K))))") auto
  then show thesis
  proof cases
    case a
    then have "getLatestSet (now_latest e) (getCat (store st) K) ?st1 =
        (Inr (\<lparr>c_data = [toString (now_latest e)], c_wordCount = Num 0, c_timestamp = None\<rparr>,
              newSet (now_latest e)), ?st1)"
      by (intro getLatestSet_fresh) auto
    from unfold [OF this] a show thesis by (intro fresh) (simp_all add: empty_new)
  next
    case b
    then have "getLatestSet (now_latest e) (getCat (store st) K) ?st1 =
        (Inr (c\<lparr>c_data := toString (now_latest e) #
                     filter (\<lambda>i. getSet (store ?st1) i \<noteq> None) (c_data c),
                c_wordCount := num_sum (map s_wordCount
                                  (List.map_filter (getSet (store ?st1)) (c_data c)))\<rparr>,
              newSet (now_latest e)),
         ?st1\<lparr>calls := calls ?st1 @ [Get_call [id0], Get_call (c_data c)]\<rparr>)"
      by (simp add: getLatestSet_heal)
    from unfold [OF this] b show thesis by (intro heal [of c id0 rest]) (simp_all add: empty_new)
  next
    case c
    then have "getLatestSet (now_latest e) (getCat (store st) K) ?st1 =
        (Inr (c, s), ?st1\<lparr>calls := calls ?st1 @ [Get_call [id0]]\<rparr>)"
      by (simp add: getLatestSet_present)
    note L = unfold [OF this]
    show thesis
    proof (cases "0 < length (s_data s) \<and> r_date (s_data s ! 0) = d")
      case True
      with c show thesis
        by (intro existing [of c id0 rest s]) (simp_all add: L getTodayItem_existing)
    next
      case nd: False
      show thesis
      proof (cases "num_ge (s_wordCount s) (Num 500)")
        case False
        with c nd show thesis
          by (intro new_date [of c id0 rest s])
             (simp_all add: L getTodayItem_new_date t_def)
      next
        case ge: True
        show thesis
        proof (cases "length (c_data c) < 20")
          case True
          with c nd ge show thesis
            by (intro rollover [of c id0 rest s])
               (simp_all add: L getTodayItem_rollover t_def)
        next
          case False
          then have "20 \<le> length (c_data c)" by simp
          with c nd ge show thesis
            by (intro evict [of c id0 rest s])
               (simp_all add: L getTodayItem_evict t_def)
        qed
      qed
    qed
  qed
qed

lemma resolve_total: "\<exists>c0 s0 t0. fst (resolve e area st) = Inr (c0, s0, t0)"
  by (cases rule: resolve_cases [of st area e]) simp_all

lemma resolve_store [simp]: "store (snd (resolve e area st)) = store st"
  by (cases rule: resolve_cases [of st area e]) simp_all

lemma resolve_set_calls [simp]:
  "set_calls (calls (snd (resolve e area st))) = set_calls (calls st)"
  by (cases rule: resolve_cases [of st area e]) simp_all

lemma resolve_shape:
  assumes "fst (resolve e area st) = Inr (c0, s0, t0)"
  shows "s_data s0 \<noteq> [] \<and> s_data s0 ! 0 = t0 \<and> r_date t0 = getToday (today e) \<and> c_data c0 \<noteq> []"
  using assms by (cases rule: resolve_cases [of st area e]) auto

lemma resolve_wf:
  assumes "latest_wf area st" and "fst (resolve e area st) = Inr (c0, s0, t0)"
  shows "hd (c_data c0) = s_id s0 \<and> s_id s0 \<noteq> catName area \<and> distinct (r_data t0)"
  using assms
  by (cases rule: resolve_cases [of st area e])
     (auto simp: latest_wf_def toString_neq_catName split: list.splits)

lemma resolve_existing:
  assumes "getCat (store st) (catName area) = Some c" and "c_data c = id0 # rest"
    and "getSet (store st) id0 = Some s"
    and "0 < length (s_data s) \<and> r_date (s_data s ! 0) = getToday (today e)"
  shows "fst (resolve e area st) = Inr (c, s, s_data s ! 0)"
  using assms by (cases rule: resolve_cases [of st area e]) auto

lemma resolve_new_set:
  assumes "getCat (store st) (catName area) = Some c" and "c_data c = id0 # rest"
    and "getSet (store st) id0 = Some s"
    and "num_ge (s_wordCount s) (Num 500)"
    and "\<not> (0 < length (s_data s) \<and> r_date (s_data s ! 0) = getToday (today e))"
  shows "fst (resolve e area st) =
     Inr (c\<lparr>c_data := toString (now_today e) #
                        (if length (c_data c) < 20 then c_data c else butlast (c_data c)),
             c_wordCount := (if length (c_data c) < 20 then c_wordCount c else NaN)\<rparr>,
          \<lparr>s_id = toString (now_today e),
             s_data = [\<lparr>r_date = getToday (today e), r_data = []\<rparr>], s_wordCount = Num 0\<rparr>,
          \<lparr>r_date = getToday (today e), r_data = []\<rparr>)"
  using assms by (cases rule: resolve_cases [of st area e]) auto

lemma addRecord_eq:
  assumes "fst (resolve e area st) = Inr (c0, s0, t0)"
  shows "addRecord e area w st =
     storage_set (set_ok e)
       [(catName area,
         Cat (c0\<lparr>c_wordCount := (if w \<in> set (r_data t0) then c_wordCount c0
                                   else num_add (c_wordCount c0) (Num 1)),
                 c_timestamp := Some (now_stamp e)\<rparr>)),
        (s_id s0,
         RSet (s0\<lparr>s_wordCount := (if w \<in> set (r_data t0) then s_wordCount s0
                                    else num_add (s_wordCount s0) (Num 1)),
                  s_data := (s_data s0)[0 := t0\<lparr>r_data := w # remove1 w (r_data t0)\<rparr>]\<rparr>))]
       (snd (resolve e area st))"
  using assms by (simp add: addRecord_resolve appendAndSave_eq)

lemma addRecord_store:
  assumes "fst (resolve e area st) = Inr (c0, s0, t0)" and "set_ok e"
  shows "store (snd (addRecord e area w st)) =
     (store st)
       (catName area \<mapsto>
          Cat (c0\<lparr>c_wordCount := (if w \<in> set (r_data t0) then c_wordCount c0
                                    else num_add (c_wordCount c0) (Num 1)),
                  c_timestamp := Some (now_stamp e)\<rparr>),
        s_id s0 \<mapsto>
          RSet (s0\<lparr>s_wordCount := (if w \<in> set (r_data t0) then s_wordCount s0
                                     else num_add (s_wordCount s0) (Num 1)),
                   s_data := (s_data s0)[0 := t0\<lparr>r_data := w # remove1 w (r_data t0)\<rparr>]\<rparr>))"
  using assms(2) unfolding addRecord_eq [OF assms(1)] by (simp add: storage_set_def)


subsection \<open>What an append keeps\<close>

lemma latest_wf_addRecord:
  assumes "latest_wf area st" and "set_ok e"
  shows "latest_wf area (snd (addRecord e area w st))"
proof -
  obtain c0 s0 t0 where r: "fst (resolve e area st) = Inr (c0, s0, t0)"
    using resolve_total by blast
  note sh = resolve_shape [OF r] and w = resolve_wf [OF assms(1) r]
  have d: "distinct (w # remove1 w (r_data t0))" using w by simp
  show ?thesis
    using sh w d
    by (cases "c_data c0"; cases "s_data s0")
       (simp_all add: latest_wf_def addRecord_store [OF r assms(2)] getCat_def getSet_def)
qed

lemma resolve_capacity:
  assumes r: "fst (resolve e area st) = Inr (c0, s0, t0)"
    and cap: "\<And>c. getCat (store st) (catName area) = Some c \<Longrightarrow> length (c_data c) \<le> 20"
  shows "length (c_data c0) \<le> 20"
proof (cases rule: resolve_cases [of st area e])
  case fresh
  with r show ?thesis by auto
next
  case (heal c id0 rest)
  from heal cap [of c] have "length rest \<le> 19" by simp
  then have "length (filter P rest) \<le> 19" for P :: "string \<Rightarrow> bool"
    by (rule le_trans [OF length_filter_le])
  with heal r show ?thesis by auto
next
  case (existing c id0 rest s)
  with r cap [of c] show ?thesis by auto
next
  case (new_date c id0 rest s)
  with r cap [of c] show ?thesis by auto
next
  case (rollover c id0 rest s)
  with r show ?thesis by auto
next
  case (evict c id0 rest s)
  with r cap [of c] show ?thesis by auto
qed

lemma capacity_addRecord:
  assumes ok: "set_ok e" and wf: "latest_wf area st"
    and cap: "\<And>c. getCat (store st) (catName area) = Some c \<Longrightarrow> length (c_data c) \<le> 20"
  shows "\<exists>c1. getCat (store (snd (addRecord e area w st))) (catName area) = Some c1 \<and>
              length (c_data c1) \<le> 20"
proof -
  obtain c0 s0 t0 where r: "fst (resolve e area st) = Inr (c0, s0, t0)"
    using resolve_total by blast
  from resolve_wf [OF wf r] have neq: "catName area \<noteq> s_id s0" by auto
  from resolve_capacity [OF r cap] neq show ?thesis
    by (simp add: addRecord_store [OF r ok] getCat_def)
qed

text \<open>The word count of the resolved catalog accounts for the resolved set and the rest.\<close>

lemma resolve_accounts:
  assumes r: "fst (resolve e area st) = Inr (c0, s0, t0)"
    and wf: "latest_wf area st" and ids: "ids_wf e area st"
    and small: "\<And>c. getCat (store st) (catName area) = Some c \<Longrightarrow> length (c_data c) < 20"
    and inv: "count_inv area st \<or>
        (\<exists>c id0 rest. getCat (store st) (catName area) = Some c \<and> c_data c = id0 # rest \<and>
           getSet (store st) id0 = None)"
  shows "\<exists>others. c_data c0 = s_id s0 # others \<and> s_id s0 \<notin> set others \<and>
         catName area \<noteq> s_id s0 \<and> catName area \<notin> set others \<and>
         c_wordCount c0 =
           num_add (s_wordCount s0)
             (num_sum (map s_wordCount (List.map_filter (getSet (store st)) others)))"
proof (cases rule: resolve_cases [of st area e])
  case fresh
  with r show ?thesis using toString_neq_catName [of "now_latest e" area] by auto
next
  case (heal c id0 rest)
  with r ids show ?thesis
    using toString_neq_catName [of "now_latest e" area]
    by (auto simp: ids_wf_def map_filter_filter_ex)
next
  case (existing c id0 rest s)
  with inv have "c_wordCount c =
      num_sum (map s_wordCount (List.map_filter (getSet (store st)) (c_data c)))"
    by (auto simp: count_inv_def)
  with existing r wf ids show ?thesis
    by (auto simp: ids_wf_def latest_wf_def split: list.splits)
next
  case (new_date c id0 rest s)
  with inv have "c_wordCount c =
      num_sum (map s_wordCount (List.map_filter (getSet (store st)) (c_data c)))"
    by (auto simp: count_inv_def)
  with new_date r wf ids show ?thesis
    by (auto simp: ids_wf_def latest_wf_def split: list.splits)
next
  case (rollover c id0 rest s)
  with inv have "c_wordCount c =
      num_sum (map s_wordCount (List.map_filter (getSet (store st)) (c_data c)))"
    by (auto simp: count_inv_def)
  with rollover r wf ids show ?thesis
    using toString_neq_catName [of "now_today e" area]
    by (auto simp: ids_wf_def)
next
  case (evict c id0 rest s)
  with small [of c] show ?thesis by simp
qed

lemma count_inv_addRecord:
  assumes ok: "set_ok e"
    and wf: "latest_wf area st" and ids: "ids_wf e area st"
    and small: "\<And>c. getCat (store st) (catName area) = Some c \<Longrightarrow> length (c_data c) < 20"
    and inv: "count_inv area st \<or>
        (\<exists>c id0 rest. getCat (store st) (catName area) = Some c \<and> c_data c = id0 # rest \<and>
           getSet (store st) id0 = None)"
  shows "count_inv area (snd (addRecord e area w st))"
proof -
  obtain c0 s0 t0 where r: "fst (resolve e area st) = Inr (c0, s0, t0)"
    using resolve_total by blast
  from resolve_accounts [OF r wf ids small inv]
  obtain others where data: "c_data c0 = s_id s0 # others"
    and fresh: "s_id s0 \<notin> set others"
    and neq: "catName area \<noteq> s_id s0" and kt: "catName area \<notin> set others"
    and acc: "c_wordCount c0 =
      num_add (s_wordCount s0)
        (num_sum (map s_wordCount (List.map_filter (getSet (store st)) others)))"
    by blast
  define c1 where "c1 = c0\<lparr>c_wordCount := (if w \<in> set (r_data t0) then c_wordCount c0
                                    else num_add (c_wordCount c0) (Num 1)),
                  c_timestamp := Some (now_stamp e)\<rparr>"
  define s1 where "s1 = s0\<lparr>s_wordCount := (if w \<in> set (r_data t0) then s_wordCount s0
                                     else num_add (s_wordCount s0) (Num 1)),
                   s_data := (s_data s0)[0 := t0\<lparr>r_data := w # remove1 w (r_data t0)\<rparr>]\<rparr>"
  define m where "m = (store st)(catName area \<mapsto> Cat c1, s_id s0 \<mapsto> RSet s1)"
  have st1: "store (snd (addRecord e area w st)) = m"
    unfolding m_def c1_def s1_def by (rule addRecord_store [OF r ok])
  have cat: "getCat m (catName area) = Some c1"
    using neq by (simp add: getCat_def m_def)
  have rest: "List.map_filter (getSet m) others = List.map_filter (getSet (store st)) others"
    unfolding m_def using fresh kt by (simp add: map_filter_getSet_upd)
  have hd: "getSet m (s_id s0) = Some s1" by (simp add: m_def getSet_def)
  have all: "List.map_filter (getSet m) (c_data c1) =
      s1 # List.map_filter (getSet (store st)) others"
    using data hd rest by (simp add: c1_def List.map_filter_simps)
  have "c_wordCount c1 =
      num_add (s_wordCount s1)
        (num_sum (map s_wordCount (List.map_filter (getSet (store st)) others)))"
    using acc by (simp add: c1_def s1_def num_add_assoc num_add_commute num_add_left_commute)
  then show ?thesis
    unfolding count_inv_def st1 by (simp add: cat all)
qed

subsection \<open>The read path\<close>

lemma inner_loop_0: "inner_loop items 0 result = Inr result"
  by (simp add: inner_loop.simps array_toNumber_def)

lemma outer_loop_cases:
  "outer_loop allSets ids result = Inr result \<or> outer_loop allSets ids result = Inl TypeError"
  by (induction ids) (auto simp: inner_loop_0 split: option.splits)

lemma outer_loop_missing:
  "i \<in> set ids \<Longrightarrow> getSet allSets i = None \<Longrightarrow> outer_loop allSets ids result = Inl TypeError"
  by (induction ids) (auto simp: inner_loop_0 split: option.splits)

lemma getAllWords_cases:
  "fst (getAllWords area st) = Inr [] \<or> fst (getAllWords area st) = Inl TypeError"
  using outer_loop_cases
  by (auto simp: getAllWords_def split_beta Let_def split: option.splits)

subsection \<open>Evaluation on concrete inputs\<close>

lemma toString_170: "toString 170 = ''170''" "toString 171 = ''171''"
  by (simp_all add: toString.simps digit_def)

lemma getToday_nov3: "getToday nov3 = ''11032026''"
  by (simp add: getToday_def nov3_def toString.simps digit_def)

lemmas eval_defs = addRecord_def getLatestSet_def getTodayItem_def appendAndSave_def
  storage_get_def storage_set_def storage_remove_def getCat_def getSet_def newSet_def
  catName_def Let_def toString_170 getToday_nov3 string_wordCount_def string_id_def
  clearRecords_def

text \<open>The first word ever recorded in a namespace.\<close>

lemma addRecord_on_empty:
  "addRecord env0 ''a'' ''x'' empty_state =
     (Inr (),
      \<lparr>store = [''aCat'' \<mapsto> Cat \<lparr>c_data = [''170''], c_wordCount = Num 1, c_timestamp = Some 172\<rparr>,
                ''170'' \<mapsto> RSet \<lparr>s_id = ''170'',
                                 s_data = [\<lparr>r_date = ''11032026'', r_data = [''x'']\<rparr>],
                                 s_wordCount = Num 1\<rparr>],
       calls = [Get_call [''aCat''],
                Set_call [(''aCat'', Cat \<lparr>c_data = [''170''], c_wordCount = Num 1,
                                         c_timestamp = Some 172\<rparr>),
                          (''170'', RSet \<lparr>s_id = ''170'',
                                           s_data = [\<lparr>r_date = ''11032026'', r_data = [''x'']\<rparr>],
                                           s_wordCount = Num 1\<rparr>)]]\<rparr>)"
  by (simp add: eval_defs env0_def empty_state_def)

lemma resolve_on_empty:
  "fst (resolve env0 ''a'' empty_state) =
     Inr (\<lparr>c_data = [''170''], c_wordCount = Num 0, c_timestamp = None\<rparr>,
          \<lparr>s_id = ''170'', s_data = [\<lparr>r_date = ''11032026'', r_data = []\<rparr>],
             s_wordCount = Num 0\<rparr>,
          \<lparr>r_date = ''11032026'', r_data = []\<rparr>)"
  by (simp add: resolve_def eval_defs env0_def empty_state_def)

lemma resolve_on_empty_any:
  "fst (resolve (env0\<lparr>set_ok := b\<rparr>) ''a'' empty_state) =
     Inr (\<lparr>c_data = [''170''], c_wordCount = Num 0, c_timestamp = None\<rparr>,
          \<lparr>s_id = ''170'', s_data = [\<lparr>r_date = ''11032026'', r_data = []\<rparr>],
             s_wordCount = Num 0\<rparr>,
          \<lparr>r_date = ''11032026'', r_data = []\<rparr>)"
  by (simp add: resolve_def eval_defs env0_def empty_state_def)

lemma toString_2: "toString 2 = ''2''"
  by (simp add: toString.simps digit_def)

lemma capacity_facts:
  "getCat (store capacity_state) (catName ''a'') = Some cat20"
  "c_data cat20 = ''20'' # tl ids20"
  "getSet (store capacity_state) ''20'' = Some (set20 ''20'')"
  "num_ge (s_wordCount (set20 ''20'')) (Num 500)"
  "\<not> (0 < length (s_data (set20 ''20'')) \<and>
      r_date (s_data (set20 ''20'') ! 0) = getToday (today env0))"
  "set_ok env0"
  "length (c_data cat20) = 20"
  "last (c_data cat20) = ''1''"
  by (simp_all add: capacity_state_def cat20_def ids20_def set20_def getCat_def getSet_def
      catName_def env0_def getToday_nov3)

text \<open>The storage after an append to the catalog at capacity, and the sum that its
  catalog should hold.\<close>

lemma capacity_after:
  "store (snd (addRecord env0 ''a'' ''w'' capacity_state)) =
     (store capacity_state)
       (''aCat'' \<mapsto> Cat \<lparr>c_data = ''171'' # butlast ids20, c_wordCount = NaN,
                          c_timestamp = Some 172\<rparr>,
        ''171'' \<mapsto> RSet \<lparr>s_id = ''171'',
                          s_data = [\<lparr>r_date = ''11032026'', r_data = [''w'']\<rparr>],
                          s_wordCount = Num 1\<rparr>)"
proof -
  have r: "fst (resolve env0 ''a'' capacity_state) =
     Inr (cat20\<lparr>c_data := toString (now_today env0) #
                        (if length (c_data cat20) < 20 then c_data cat20 else butlast (c_data cat20)),
             c_wordCount := (if length (c_data cat20) < 20 then c_wordCount cat20 else NaN)\<rparr>,
          \<lparr>s_id = toString (now_today env0),
             s_data = [\<lparr>r_date = getToday (today env0), r_data = []\<rparr>], s_wordCount = Num 0\<rparr>,
          \<lparr>r_date = getToday (today env0), r_data = []\<rparr>)"
    by (rule resolve_new_set [OF capacity_facts(1-5)])
  have len: "length ids20 = 20" by (simp add: ids20_def)
  show ?thesis
    unfolding addRecord_store [OF r capacity_facts(6)]
    by (simp add: len env0_def toString_170 getToday_nov3 catName_def cat20_def)
qed

lemma capacity_sum:
  "num_sum (map s_wordCount
     (List.map_filter (getSet (store (snd (addRecord env0 ''a'' ''w'' capacity_state))))
        (''171'' # butlast ids20))) = Num 9501"
  unfolding capacity_after
  by (simp add: capacity_state_def ids20_def set20_def getSet_def List.map_filter_simps)

section \<open>The claims\<close>

subsection \<open>Resolving the latest set\<close>

text \<open>
  Claim C9 (fresh-namespace synthesis), as stated: when the catalog is absent or lists no
  set, \<^verbatim>\<open>getLatestSet\<close> returns a fresh catalog whose id list is empty, with a fresh
  set of a new unique id. It does not: the catalog it builds lists the id of the fresh
  set, and that id is the current time in decimal, which can be a key that the storage
  already holds (here the set \<^verbatim>\<open>2\<close>, made at time 2, and a second namespace whose
  first append comes at time 2).
\<close>

theorem fresh_catalog_lists_new_set_counterexample:
  "fst (getLatestSet 170 None empty_state) =
     Inr (\<lparr>c_data = [''170''], c_wordCount = Num 0, c_timestamp = None\<rparr>,
          \<lparr>s_id = ''170'', s_data = [], s_wordCount = Num 0\<rparr>)
   \<and> fst (getLatestSet 170 None empty_state) \<noteq>
     Inr (\<lparr>c_data = [], c_wordCount = Num 0, c_timestamp = None\<rparr>,
          \<lparr>s_id = ''170'', s_data = [], s_wordCount = Num 0\<rparr>)
   \<and> fst (getLatestSet 2 None desync_state) =
     Inr (\<lparr>c_data = [''2''], c_wordCount = Num 0, c_timestamp = None\<rparr>,
          \<lparr>s_id = ''2'', s_data = [], s_wordCount = Num 0\<rparr>)
   \<and> store desync_state ''2'' = Some (RSet \<lparr>s_id = ''2'', s_data = [], s_wordCount = Num 7\<rparr>)"
  by (simp add: eval_defs toString_2 desync_state_def)

text \<open>
  Claim C9, amended: when the catalog is absent or lists no set, \<^verbatim>\<open>getLatestSet\<close>
  returns a fresh catalog whose id list holds exactly the id of the fresh set and whose
  word count is 0, together with a fresh empty set (its id the decimal rendering of the
  current time, no records, word count 0). It issues no call to the storage: the state
  it returns is the state it was given.
\<close>

theorem getLatestSet_fresh_namespace:
  assumes "catalog = None \<or> (\<exists>c. catalog = Some c \<and> c_data c = [])"
  shows "getLatestSet now catalog st =
           (Inr (\<lparr>c_data = [toString now], c_wordCount = Num 0, c_timestamp = None\<rparr>,
                 \<lparr>s_id = toString now, s_data = [], s_wordCount = Num 0\<rparr>), st)"
  using assms getLatestSet_fresh [of catalog now st]
  by (auto simp: newSet_def)

theorem getLatestSet_fresh_namespace_witness:
  "getLatestSet 170 (Some \<lparr>c_data = [], c_wordCount = Num 0, c_timestamp = None\<rparr>) desync_state =
           (Inr (\<lparr>c_data = [''170''], c_wordCount = Num 0, c_timestamp = None\<rparr>,
                 \<lparr>s_id = ''170'', s_data = [], s_wordCount = Num 0\<rparr>), desync_state)"
  using getLatestSet_fresh_namespace
    [of "Some \<lparr>c_data = [], c_wordCount = Num 0, c_timestamp = None\<rparr>" 170 desync_state]
  by (simp add: toString_170)

text \<open>
  Claim C5 (self-heal). When the first id that the catalog lists is missing from the
  storage, \<^verbatim>\<open>getLatestSet\<close> returns the catalog with its id list filtered down to the
  ids that resolve, the id of a newly created empty set in front of them, and a word
  count that is the sum of the word counts of the resolved sets; it returns the new
  empty set with it.
\<close>

theorem getLatestSet_self_heal:
  assumes "c_data c = id0 # rest" and "getSet (store st) id0 = None"
  shows "fst (getLatestSet now (Some c) st) =
     Inr (c\<lparr>c_data := toString now # filter (\<lambda>i. getSet (store st) i \<noteq> None) (c_data c),
            c_wordCount := num_sum (map s_wordCount (List.map_filter (getSet (store st)) (c_data c)))\<rparr>,
          \<lparr>s_id = toString now, s_data = [], s_wordCount = Num 0\<rparr>)"
  using getLatestSet_heal [OF assms, of now] by (simp add: newSet_def)

theorem getLatestSet_self_heal_witness:
  "fst (getLatestSet 170 (Some desync_cat) desync_state) =
     Inr (\<lparr>c_data = [''170'', ''2'', ''1''], c_wordCount = Num 12, c_timestamp = Some 100\<rparr>,
          \<lparr>s_id = ''170'', s_data = [], s_wordCount = Num 0\<rparr>)"
proof -
  have 1: "c_data desync_cat = ''3'' # [''2'', ''1'']" by (simp add: desync_cat_def)
  have 2: "getSet (store desync_state) ''3'' = None"
    by (simp add: desync_state_def getSet_def)
  from getLatestSet_self_heal [OF 1 2, of 170] show ?thesis
    by (simp add: desync_state_def desync_cat_def getSet_def toString_170
        List.map_filter_simps)
qed

subsection \<open>Rollover and eviction\<close>

text \<open>
  Claim C4 (rollover threshold), as stated: whenever the latest set has 500 words or
  more, the next append of a new word opens a new set. It does not while the first
  record of the latest set is dated today: \<^verbatim>\<open>getTodayItem\<close> returns before it looks at
  the word count, and the word goes to the full set, which then has 501.
\<close>

theorem full_set_same_day_counterexample:
  "num_ge (s_wordCount (full_set ''11032026'')) (Num 500)
   \<and> getSet (store (full_state ''11032026'')) ''5'' = Some (full_set ''11032026'')
   \<and> store (snd (addRecord env0 ''a'' ''new'' (full_state ''11032026''))) =
       [''aCat'' \<mapsto> Cat \<lparr>c_data = [''5''], c_wordCount = Num 501, c_timestamp = Some 172\<rparr>,
        ''5'' \<mapsto> RSet \<lparr>s_id = ''5'',
                        s_data = [\<lparr>r_date = ''11032026'', r_data = [''new'', ''old'']\<rparr>],
                        s_wordCount = Num 501\<rparr>]"
  by (simp add: eval_defs env0_def full_state_def full_set_def fun_eq_iff)

text \<open>
  Claim C4, amended, for a latest set that the storage has. While its first record is
  dated today, the append goes to that set whatever its word count: no set is
  allocated, nothing but the catalog and that set is written, and the id list of the
  catalog is as it was. When its first record is not dated today (or it has no record)
  and its word count is 500 or more, the append allocates a brand-new set with word
  count 0, which the append brings to 1, and puts its id in front of the catalog's id
  list (whose oldest id goes when the list would exceed 20).
\<close>

theorem rollover_only_on_new_day:
  assumes "getCat (store st) (catName area) = Some c" and "c_data c = id0 # rest"
    and "getSet (store st) id0 = Some s"
    and "set_ok e"
  shows "(0 < length (s_data s) \<and> r_date (s_data s ! 0) = getToday (today e) \<longrightarrow>
            fst (resolve e area st) = Inr (c, s, s_data s ! 0)
          \<and> store (snd (addRecord e area w st)) =
              (store st)
                (catName area \<mapsto>
                   Cat (c\<lparr>c_wordCount := (if w \<in> set (r_data (s_data s ! 0)) then c_wordCount c
                                            else num_add (c_wordCount c) (Num 1)),
                          c_timestamp := Some (now_stamp e)\<rparr>),
                 s_id s \<mapsto>
                   RSet (s\<lparr>s_wordCount := (if w \<in> set (r_data (s_data s ! 0)) then s_wordCount s
                                             else num_add (s_wordCount s) (Num 1)),
                           s_data := (s_data s)
                             [0 := (s_data s ! 0)\<lparr>r_data := w # remove1 w (r_data (s_data s ! 0))\<rparr>]\<rparr>)))
       \<and> (\<not> (0 < length (s_data s) \<and> r_date (s_data s ! 0) = getToday (today e)) \<and>
          num_ge (s_wordCount s) (Num 500) \<longrightarrow>
            (\<exists>c0. fst (resolve e area st) =
               Inr (c0, \<lparr>s_id = toString (now_today e),
                          s_data = [\<lparr>r_date = getToday (today e), r_data = []\<rparr>],
                          s_wordCount = Num 0\<rparr>,
                    \<lparr>r_date = getToday (today e), r_data = []\<rparr>))
          \<and> getSet (store (snd (addRecord e area w st))) (toString (now_today e)) =
              Some \<lparr>s_id = toString (now_today e),
                     s_data = [\<lparr>r_date = getToday (today e), r_data = [w]\<rparr>],
                     s_wordCount = Num 1\<rparr>
          \<and> (\<exists>c1. getCat (store (snd (addRecord e area w st))) (catName area) = Some c1
                 \<and> c_data c1 = toString (now_today e) #
                      (if length (c_data c) < 20 then c_data c else butlast (c_data c))))"
proof (intro conjI impI)
  assume today: "0 < length (s_data s) \<and> r_date (s_data s ! 0) = getToday (today e)"
  note r = resolve_existing [OF assms(1-3) today]
  show "fst (resolve e area st) = Inr (c, s, s_data s ! 0)" by (rule r)
  show "store (snd (addRecord e area w st)) =
              (store st)
                (catName area \<mapsto>
                   Cat (c\<lparr>c_wordCount := (if w \<in> set (r_data (s_data s ! 0)) then c_wordCount c
                                            else num_add (c_wordCount c) (Num 1)),
                          c_timestamp := Some (now_stamp e)\<rparr>),
                 s_id s \<mapsto>
                   RSet (s\<lparr>s_wordCount := (if w \<in> set (r_data (s_data s ! 0)) then s_wordCount s
                                             else num_add (s_wordCount s) (Num 1)),
                           s_data := (s_data s)
                             [0 := (s_data s ! 0)\<lparr>r_data := w # remove1 w (r_data (s_data s ! 0))\<rparr>]\<rparr>))"
    by (rule addRecord_store [OF r assms(4)])
next
  assume new: "\<not> (0 < length (s_data s) \<and> r_date (s_data s ! 0) = getToday (today e)) \<and>
          num_ge (s_wordCount s) (Num 500)"
  then have ge: "num_ge (s_wordCount s) (Num 500)"
    and nd: "\<not> (0 < length (s_data s) \<and> r_date (s_data s ! 0) = getToday (today e))"
    by blast+
  note r = resolve_new_set [OF assms(1-3) ge nd]
  have neq: "toString (now_today e) \<noteq> catName area" by (rule toString_neq_catName)
  show "\<exists>c0. fst (resolve e area st) =
               Inr (c0, \<lparr>s_id = toString (now_today e),
                          s_data = [\<lparr>r_date = getToday (today e), r_data = []\<rparr>],
                          s_wordCount = Num 0\<rparr>,
                    \<lparr>r_date = getToday (today e), r_data = []\<rparr>)"
    by (simp add: r)
  show "getSet (store (snd (addRecord e area w st))) (toString (now_today e)) =
              Some \<lparr>s_id = toString (now_today e),
                     s_data = [\<lparr>r_date = getToday (today e), r_data = [w]\<rparr>],
                     s_wordCount = Num 1\<rparr>"
    using neq assms(4) unfolding addRecord_eq [OF r]
    by (simp add: storage_set_def getSet_def)
  show "\<exists>c1. getCat (store (snd (addRecord e area w st))) (catName area) = Some c1
                 \<and> c_data c1 = toString (now_today e) #
                      (if length (c_data c) < 20 then c_data c else butlast (c_data c))"
    using neq assms(4) unfolding addRecord_eq [OF r]
    by (simp add: storage_set_def getCat_def)
qed

theorem rollover_only_on_new_day_witness:
  "store (snd (addRecord env0 ''a'' ''new'' (full_state ''11032026''))) =
       [''aCat'' \<mapsto> Cat \<lparr>c_data = [''5''], c_wordCount = Num 501, c_timestamp = Some 172\<rparr>,
        ''5'' \<mapsto> RSet \<lparr>s_id = ''5'',
                        s_data = [\<lparr>r_date = ''11032026'', r_data = [''new'', ''old'']\<rparr>],
                        s_wordCount = Num 501\<rparr>]
   \<and> getSet (store (snd (addRecord env0 ''a'' ''new'' (full_state ''11022026'')))) ''171'' =
     Some \<lparr>s_id = ''171'', s_data = [\<lparr>r_date = ''11032026'', r_data = [''new'']\<rparr>],
            s_wordCount = Num 1\<rparr>
   \<and> (\<exists>c1. getCat (store (snd (addRecord env0 ''a'' ''new'' (full_state ''11022026'')))) ''aCat''
             = Some c1 \<and> c_data c1 = [''171'', ''5''])"
proof -
  let ?c = "\<lparr>c_data = [''5''], c_wordCount = Num 500, c_timestamp = Some 100\<rparr>"
  have 1: "getCat (store (full_state d)) (catName ''a'') = Some ?c" for d
    by (simp add: full_state_def getCat_def catName_def)
  have 2: "c_data ?c = ''5'' # []" by simp
  have 3: "getSet (store (full_state d)) ''5'' = Some (full_set d)" for d
    by (simp add: full_state_def getSet_def)
  have 4: "set_ok env0" by (simp add: env0_def)
  have A: "store (snd (addRecord env0 ''a'' ''new'' (full_state ''11032026''))) =
       [''aCat'' \<mapsto> Cat \<lparr>c_data = [''5''], c_wordCount = Num 501, c_timestamp = Some 172\<rparr>,
        ''5'' \<mapsto> RSet \<lparr>s_id = ''5'',
                        s_data = [\<lparr>r_date = ''11032026'', r_data = [''new'', ''old'']\<rparr>],
                        s_wordCount = Num 501\<rparr>]"
    using rollover_only_on_new_day [OF 1 2 3 4, of "''11032026''" "''new''"]
    by (simp add: full_set_def full_state_def env0_def getToday_nov3 catName_def fun_eq_iff)
  have B: "getSet (store (snd (addRecord env0 ''a'' ''new'' (full_state ''11022026'')))) ''171'' =
     Some \<lparr>s_id = ''171'', s_data = [\<lparr>r_date = ''11032026'', r_data = [''new'']\<rparr>],
            s_wordCount = Num 1\<rparr>
   \<and> (\<exists>c1. getCat (store (snd (addRecord env0 ''a'' ''new'' (full_state ''11022026'')))) ''aCat''
             = Some c1 \<and> c_data c1 = [''171'', ''5''])"
    using rollover_only_on_new_day [OF 1 2 3 4, of "''11022026''" "''new''"]
    by (simp add: full_set_def env0_def getToday_nov3 toString_170 catName_def)
  from A B show ?thesis by blast
qed

text \<open>
  Claim C2 (capacity eviction). For a catalog of exactly 20 ids, an append that triggers
  rollover leaves 20 ids, the new one in front and the oldest gone; the claim adds
  that the key of the evicted set is absent from the storage afterwards. It is not:
  \<^verbatim>\<open>getTodayItem\<close> pops the oldest id, a string, into \<^verbatim>\<open>oldestSet\<close> and calls
  \<^verbatim>\<open>storage.local.remove(oldestSet.id)\<close>, whose argument is \<^verbatim>\<open>undefined\<close>, so the
  storage holds under the evicted id what it held before. That a catalog of at most 20
  ids has at most 20 after an append is lemma \<open>capacity_addRecord\<close>.
\<close>

theorem eviction_keeps_evicted_set:
  assumes "getCat (store st) (catName area) = Some c" and "c_data c = id0 # rest"
    and "getSet (store st) id0 = Some s"
    and "num_ge (s_wordCount s) (Num 500)"
    and "\<not> (0 < length (s_data s) \<and> r_date (s_data s ! 0) = getToday (today e))"
    and "set_ok e"
    and "length (c_data c) = 20"
    and "last (c_data c) \<noteq> toString (now_today e)"
    and "last (c_data c) \<noteq> catName area"
  shows "(\<exists>c1. getCat (store (snd (addRecord e area w st))) (catName area) = Some c1
              \<and> c_data c1 = toString (now_today e) # butlast (c_data c)
              \<and> length (c_data c1) = 20)
       \<and> store (snd (addRecord e area w st)) (last (c_data c)) = store st (last (c_data c))"
proof -
  note r = resolve_new_set [OF assms(1-5)]
  have neq: "toString (now_today e) \<noteq> catName area" by (rule toString_neq_catName)
  show ?thesis
    using neq assms(6-9) unfolding addRecord_eq [OF r]
    by (simp add: r storage_set_def getSet_def getCat_def)
qed

theorem eviction_keeps_evicted_set_witness:
  "(\<exists>c1. getCat (store (snd (addRecord env0 ''a'' ''w'' capacity_state))) ''aCat'' = Some c1
        \<and> c_data c1 = ''171'' # butlast ids20 \<and> length (c_data c1) = 20)
   \<and> store (snd (addRecord env0 ''a'' ''w'' capacity_state)) ''1'' = Some (RSet (set20 ''1''))"
proof -
  have 8: "last (c_data cat20) \<noteq> toString (now_today env0)"
    by (simp add: capacity_facts(8) env0_def toString_170)
  have 9: "last (c_data cat20) \<noteq> catName ''a''"
    by (simp add: capacity_facts(8) catName_def)
  have 10: "store capacity_state ''1'' = Some (RSet (set20 ''1''))"
    by (simp add: capacity_state_def ids20_def)
  note T = eviction_keeps_evicted_set [OF capacity_facts(1-7) 8 9, of "''w''"]
  from T [unfolded capacity_facts(8)] show ?thesis
    by (simp add: 10 env0_def toString_170 catName_def cat20_def)
qed

text \<open>
  Claim C3 (aggregate-count invariant). The claim wants \<^verbatim>\<open>catalog.wordCount\<close> to stay
  the sum of the word counts of the listed sets through every write, eviction included.
  On eviction \<^verbatim>\<open>getTodayItem\<close> subtracts \<^verbatim>\<open>oldestSet.wordCount\<close>, where \<^verbatim>\<open>oldestSet\<close> is
  the popped id string: the catalog that is written has the word count \<^verbatim>\<open>NaN\<close>. On
  the paths without eviction an append keeps the invariant, or sets it up again after a
  desync (lemma \<open>count_inv_addRecord\<close>).
\<close>

theorem eviction_makes_count_NaN:
  assumes "getCat (store st) (catName area) = Some c" and "c_data c = id0 # rest"
    and "getSet (store st) id0 = Some s"
    and "num_ge (s_wordCount s) (Num 500)"
    and "\<not> (0 < length (s_data s) \<and> r_date (s_data s ! 0) = getToday (today e))"
    and "set_ok e"
    and "20 \<le> length (c_data c)"
  shows "\<exists>c1. getCat (store (snd (addRecord e area w st))) (catName area) = Some c1
              \<and> c_wordCount c1 = NaN"
proof -
  note r = resolve_new_set [OF assms(1-5)]
  have neq: "toString (now_today e) \<noteq> catName area" by (rule toString_neq_catName)
  show ?thesis
    using neq assms(6-7) unfolding addRecord_eq [OF r]
    by (simp add: r storage_set_def getSet_def getCat_def)
qed

theorem eviction_makes_count_NaN_witness:
  "(\<exists>c1. getCat (store (snd (addRecord env0 ''a'' ''w'' capacity_state))) ''aCat'' = Some c1
        \<and> c_wordCount c1 = NaN)
   \<and> getCat (store (snd (addRecord env0 ''a'' ''w'' capacity_state))) ''aCat'' =
       Some \<lparr>c_data = ''171'' # butlast ids20, c_wordCount = NaN, c_timestamp = Some 172\<rparr>
   \<and> num_sum (map s_wordCount
         (List.map_filter (getSet (store (snd (addRecord env0 ''a'' ''w'' capacity_state))))
            (''171'' # butlast ids20))) = Num 9501"
proof -
  have 7: "20 \<le> length (c_data cat20)" by (simp add: capacity_facts(7))
  from eviction_makes_count_NaN [OF capacity_facts(1-6) 7, of "''w''"]
  have "\<exists>c1. getCat (store (snd (addRecord env0 ''a'' ''w'' capacity_state))) ''aCat'' = Some c1
        \<and> c_wordCount c1 = NaN"
    by (simp add: catName_def)
  moreover have "getCat (store (snd (addRecord env0 ''a'' ''w'' capacity_state))) ''aCat'' =
       Some \<lparr>c_data = ''171'' # butlast ids20, c_wordCount = NaN, c_timestamp = Some 172\<rparr>"
    by (simp add: capacity_after getCat_def)
  ultimately show ?thesis using capacity_sum by blast
qed

subsection \<open>Appending and persisting\<close>



text \<open>
  Claim C8 (atomic persist). Every \<^verbatim>\<open>addRecord\<close> issues exactly one \<^verbatim>\<open>set\<close> call, and
  that call carries, under the catalog key, the catalog that the earlier stages resolved
  with its count and timestamp brought up to date, and, under its id, the latest set
  that they resolved with the word moved to the front of today's record.
  \<^verbatim>\<open>addRecord\<close> returns the outcome of that call: when the storage accepts it both
  values are in the storage, when it refuses it the failure is what \<^verbatim>\<open>addRecord\<close>
  reports and the storage holds what it held before.
\<close>

theorem addRecord_single_combined_write:
  "\<exists>c0 s0 t0.
     fst (resolve e area st) = Inr (c0, s0, t0)
     \<and> (let c1 = c0\<lparr>c_wordCount := (if w \<in> set (r_data t0) then c_wordCount c0
                                       else num_add (c_wordCount c0) (Num 1)),
                     c_timestamp := Some (now_stamp e)\<rparr>;
             s1 = s0\<lparr>s_wordCount := (if w \<in> set (r_data t0) then s_wordCount s0
                                       else num_add (s_wordCount s0) (Num 1)),
                     s_data := (s_data s0)[0 := t0\<lparr>r_data := w # remove1 w (r_data t0)\<rparr>]\<rparr>
         in set_calls (calls (snd (addRecord e area w st))) =
              set_calls (calls st) @ [[(catName area, Cat c1), (s_id s0, RSet s1)]]
          \<and> (if set_ok e
             then fst (addRecord e area w st) = Inr ()
                \<and> store (snd (addRecord e area w st)) =
                    (store st)(catName area \<mapsto> Cat c1, s_id s0 \<mapsto> RSet s1)
             else fst (addRecord e area w st) = Inl StorageFailure
                \<and> store (snd (addRecord e area w st)) = store st))"
proof -
  obtain c0 s0 t0 where r: "fst (resolve e area st) = Inr (c0, s0, t0)"
    using resolve_total by blast
  show ?thesis
    by (intro exI [of _ c0] exI [of _ s0] exI [of _ t0])
       (simp add: r addRecord_eq [OF r] storage_set_def Let_def)
qed

theorem addRecord_single_combined_write_witness:
  "set_calls (calls (snd (addRecord env0 ''a'' ''x'' empty_state))) =
      [[(''aCat'', Cat \<lparr>c_data = [''170''], c_wordCount = Num 1, c_timestamp = Some 172\<rparr>),
        (''170'', RSet \<lparr>s_id = ''170'',
                         s_data = [\<lparr>r_date = ''11032026'', r_data = [''x'']\<rparr>],
                         s_wordCount = Num 1\<rparr>)]]
   \<and> fst (addRecord env0 ''a'' ''x'' empty_state) = Inr ()
   \<and> store (snd (addRecord env0 ''a'' ''x'' empty_state)) =
      [''aCat'' \<mapsto> Cat \<lparr>c_data = [''170''], c_wordCount = Num 1, c_timestamp = Some 172\<rparr>,
       ''170'' \<mapsto> RSet \<lparr>s_id = ''170'',
                         s_data = [\<lparr>r_date = ''11032026'', r_data = [''x'']\<rparr>],
                         s_wordCount = Num 1\<rparr>]
   \<and> set_calls (calls (snd (addRecord (env0\<lparr>set_ok := False\<rparr>) ''a'' ''x'' empty_state))) =
      [[(''aCat'', Cat \<lparr>c_data = [''170''], c_wordCount = Num 1, c_timestamp = Some 172\<rparr>),
        (''170'', RSet \<lparr>s_id = ''170'',
                         s_data = [\<lparr>r_date = ''11032026'', r_data = [''x'']\<rparr>],
                         s_wordCount = Num 1\<rparr>)]]
   \<and> fst (addRecord (env0\<lparr>set_ok := False\<rparr>) ''a'' ''x'' empty_state) = Inl StorageFailure
   \<and> store (snd (addRecord (env0\<lparr>set_ok := False\<rparr>) ''a'' ''x'' empty_state)) = Map.empty"
proof -
  from addRecord_single_combined_write [of env0 "''a''" empty_state "''x''"]
  have A: "set_calls (calls (snd (addRecord env0 ''a'' ''x'' empty_state))) =
      [[(''aCat'', Cat \<lparr>c_data = [''170''], c_wordCount = Num 1, c_timestamp = Some 172\<rparr>),
        (''170'', RSet \<lparr>s_id = ''170'',
                         s_data = [\<lparr>r_date = ''11032026'', r_data = [''x'']\<rparr>],
                         s_wordCount = Num 1\<rparr>)]]
   \<and> fst (addRecord env0 ''a'' ''x'' empty_state) = Inr ()
   \<and> store (snd (addRecord env0 ''a'' ''x'' empty_state)) =
      [''aCat'' \<mapsto> Cat \<lparr>c_data = [''170''], c_wordCount = Num 1, c_timestamp = Some 172\<rparr>,
       ''170'' \<mapsto> RSet \<lparr>s_id = ''170'',
                         s_data = [\<lparr>r_date = ''11032026'', r_data = [''x'']\<rparr>],
                         s_wordCount = Num 1\<rparr>]"
    unfolding resolve_on_empty
    by (simp add: Let_def) (simp add: env0_def empty_state_def catName_def)
  from addRecord_single_combined_write [of "env0\<lparr>set_ok := False\<rparr>" "''a''" empty_state "''x''"]
  have B: "set_calls (calls (snd (addRecord (env0\<lparr>set_ok := False\<rparr>) ''a'' ''x'' empty_state))) =
      [[(''aCat'', Cat \<lparr>c_data = [''170''], c_wordCount = Num 1, c_timestamp = Some 172\<rparr>),
        (''170'', RSet \<lparr>s_id = ''170'',
                         s_data = [\<lparr>r_date = ''11032026'', r_data = [''x'']\<rparr>],
                         s_wordCount = Num 1\<rparr>)]]
   \<and> fst (addRecord (env0\<lparr>set_ok := False\<rparr>) ''a'' ''x'' empty_state) = Inl StorageFailure
   \<and> store (snd (addRecord (env0\<lparr>set_ok := False\<rparr>) ''a'' ''x'' empty_state)) = Map.empty"
    unfolding resolve_on_empty_any
    by (simp add: Let_def) (simp add: env0_def empty_state_def catName_def)
  from A B show ?thesis by blast
qed

subsection \<open>Reading all words back\<close>

text \<open>
  Claim C1 (round trip of the write and read paths). The claim expects
  \<^verbatim>\<open>getAllWords(area)\<close>, called after \<^verbatim>\<open>addRecord(area, w)\<close>, to return a sequence that
  starts with \<open>w\<close>. The inner loop of \<^verbatim>\<open>getAllWords\<close> compares its index with the
  array of records and not with its length, so its body never runs: whatever the storage
  holds, \<^verbatim>\<open>getAllWords\<close> returns the empty sequence or throws, and the result after
  \<^verbatim>\<open>addRecord(area, w)\<close> is never a sequence whose first element is \<open>w\<close>. After the
  first word ever recorded in a namespace it is the empty sequence.
\<close>

theorem roundtrip_never_yields_word:
  "fst (getAllWords area (snd (addRecord e area w st))) \<noteq> Inr (w # ws)
   \<and> fst (getAllWords ''a'' (snd (addRecord env0 ''a'' ''x'' empty_state))) = Inr []"
proof
  show "fst (getAllWords area (snd (addRecord e area w st))) \<noteq> Inr (w # ws)"
    using getAllWords_cases [of area "snd (addRecord e area w st)"] by auto
  show "fst (getAllWords ''a'' (snd (addRecord env0 ''a'' ''x'' empty_state))) = Inr []"
    by (simp add: addRecord_on_empty)
       (simp add: getAllWords_def storage_get_def getCat_def getSet_def catName_def
          inner_loop_0)
qed

text \<open>
  Claim C6 (no throw on missing data). The claim expects \<^verbatim>\<open>getAllWords\<close> to complete
  when the catalog lists sets that the storage does not have. It reads
  \<^verbatim>\<open>allSets[setIds[i]].data\<close> without a check: as soon as one listed id is missing from
  the storage, the call throws a \<^verbatim>\<open>TypeError\<close>. The state is reached by
  \<^verbatim>\<open>clearRecords\<close>, which removes the sets and keeps the catalog.
\<close>

theorem getAllWords_throws_on_dangling_id:
  assumes "getCat (store st) (catName area) = Some c"
    and "i \<in> set (c_data c)"
    and "getSet (store st) i = None"
  shows "fst (getAllWords area st) = Inl TypeError"
  using assms
  by (simp add: getAllWords_def split_beta Let_def outer_loop_missing [where i = i])

theorem getAllWords_throws_on_dangling_id_witness:
  "fst (getAllWords ''a'' (clearRecords ''a'' (snd (addRecord env0 ''a'' ''x'' empty_state))))
     = Inl TypeError"
proof -
  let ?st = "clearRecords ''a'' (snd (addRecord env0 ''a'' ''x'' empty_state))"
  let ?c = "\<lparr>c_data = [''170''], c_wordCount = Num 1, c_timestamp = Some 172\<rparr>"
  have 1: "getCat (store ?st) (catName ''a'') = Some ?c"
    by (simp add: addRecord_on_empty) (simp add: eval_defs)
  have 2: "''170'' \<in> set (c_data ?c)" by simp
  have 3: "getSet (store ?st) ''170'' = None"
    by (simp add: addRecord_on_empty) (simp add: eval_defs)
  show ?thesis
    by (rule getAllWords_throws_on_dangling_id [OF 1 2 3])
qed

subsection \<open>Clearing a namespace\<close>

text \<open>
  Claim C10 (frame property of \<^verbatim>\<open>clearRecords\<close>). For a namespace with a catalog,
  \<^verbatim>\<open>clearRecords\<close> removes exactly the keys that the catalog lists and leaves every
  other key as it was, the catalog's own entry among them; \<^verbatim>\<open>getWordCount\<close>
  therefore returns after it what it returned before, the word count of the catalog.
  The ids that a catalog lists are ids of sets, so the key of the catalog is not one of
  them.
\<close>

theorem clearRecords_frame:
  assumes "getCat (store st) (catName area) = Some c"
    and "catName area \<notin> set (c_data c)"
  shows "store (clearRecords area st) = (\<lambda>k. if k \<in> set (c_data c) then None else store st k)
       \<and> store (clearRecords area st) (catName area) = Some (Cat c)
       \<and> fst (getWordCount area (clearRecords area st)) = fst (getWordCount area st)
       \<and> fst (getWordCount area st) = c_wordCount c"
proof -
  have s: "store (clearRecords area st) = (\<lambda>k. if k \<in> set (c_data c) then None else store st k)"
    using assms by (simp add: clearRecords_def split_beta storage_remove_def fun_eq_iff)
  have c: "store st (catName area) = Some (Cat c)"
    using assms(1) by (auto simp: getCat_def split: option.splits stored.splits)
  have g: "getCat (store (clearRecords area st)) (catName area) = Some c"
    using assms s c by (simp add: getCat_def)
  show ?thesis
    using s c g assms by (simp add: getWordCount_def split_beta)
qed

theorem clearRecords_frame_witness:
  "store (clearRecords ''a'' (full_state ''11032026'')) ''5'' = None
   \<and> store (clearRecords ''a'' (full_state ''11032026'')) ''aCat'' =
       Some (Cat \<lparr>c_data = [''5''], c_wordCount = Num 500, c_timestamp = Some 100\<rparr>)
   \<and> fst (getWordCount ''a'' (clearRecords ''a'' (full_state ''11032026''))) = Num 500"
proof -
  let ?c = "\<lparr>c_data = [''5''], c_wordCount = Num 500, c_timestamp = Some 100\<rparr>"
  have 1: "getCat (store (full_state ''11032026'')) (catName ''a'') = Some ?c"
    by (simp add: full_state_def getCat_def catName_def)
  have 2: "catName ''a'' \<notin> set (c_data ?c)" by (simp add: catName_def)
  from clearRecords_frame [OF 1 2] show ?thesis
    by (simp add: catName_def full_state_def)
qed

end
